theory Spec2Isabelle
  imports Complex_Main
begin

chapter \<open>The notebooks as functions\<close>

section \<open>Velocity windows of the far 3 kpc arm (DameCube.ipynb)\<close>

text \<open>
  The notebook builds, for every Galactic longitude of the map, a boolean row over the
  spectral axis of the cube:
  \<^verbatim>\<open>
  lmin,lmax = -12, 12.5
  def v_of_l(ell):
      return (56 + 4.0 * ell)*u.m/u.s
  far3kpcarm_mask = [(cube.spectral_axis > v_of_l(l)-13*u.m/u.s) &
                     (cube.spectral_axis < v_of_l(l)+13*u.m/u.s)
                     for l in np.arange(lmax, lmin-0.01, -1/8.)]
  \<close>
  Velocities and longitudes are floating-point numbers in the notebook; they are taken
  as reals here, so rounding is outside the model. All quantities carry the same unit,
  which is dropped.
\<close>

definition lmin :: real where
  "lmin = -12"

definition lmax :: real where
  "lmax = 12.5"

definition v_of_l :: "real \<Rightarrow> real" where
  "v_of_l ell = 56 + 4.0 * ell"

text \<open>
  \<^verbatim>\<open>np.arange(start, stop, step)\<close> has \<open>ceil((stop - start) / step)\<close> entries
  \<open>start + i * step\<close> (none when that number is not positive).
\<close>

definition arange :: "real \<Rightarrow> real \<Rightarrow> real \<Rightarrow> real list" where
  "arange start stop step =
     map (\<lambda>i. start + real i * step) [0 ..< nat \<lceil>(stop - start) / step\<rceil>]"

definition longitudes :: "real list" where
  "longitudes = arange lmax (lmin - 0.01) (- 1 / 8)"

text \<open>The window of one longitude: the two comparisons joined by \<open>&\<close>.\<close>

definition v_min :: "real \<Rightarrow> real" where
  "v_min l = v_of_l l - 13"

definition v_max :: "real \<Rightarrow> real" where
  "v_max l = v_of_l l + 13"

definition far3kpcarm_mask :: "real list \<Rightarrow> bool list list" where
  "far3kpcarm_mask spectral_axis =
     map (\<lambda>l. map (\<lambda>v. v > v_of_l l - 13 \<and> v < v_of_l l + 13) spectral_axis) longitudes"

section \<open>Fetching the remote cubes\<close>

text \<open>
  The notebooks fetch their cubes through library calls whose outcome depends on the
  network and the file system. The outcome of every such call is a field of the record
  \<open>world\<close>; a cell is a function from the world to the calls it makes, in order, and
  to its result: the name of the file to open, or the exception that ends the cell.
\<close>

datatype exn = IOError | Other string

datatype event =
    DownloadFile string bool "nat option"
  | FTP string
  | Login
  | Cwd string
  | OpenWrite string
  | RetrBinary string
  | Quit

record world =
  path_exists :: "string \<Rightarrow> bool"
  download_file :: "string \<Rightarrow> exn + string"
  ftp_connect :: "exn option"
  ftp_login :: "exn option"
  ftp_cwd :: "exn option"
  open_write :: "exn option"
  ftp_retrbinary :: "exn option"
  ftp_quit :: "exn option"










definition m33_url :: string where
  "m33_url = ''https://zenodo.org/record/4021108/files/M33_Brick1Tile1_12CO21_0p7kms.image.pbcor_K.cutout.fits''"


definition fetch_m33_cube :: "world \<Rightarrow> event list \<times> (exn + string)" where
  "fetch_m33_cube w = ([DownloadFile m33_url True None], download_file w m33_url)"





section \<open>Fitting a 2D Gaussian to the moment map (fitting_with_spectralcube.ipynb)\<close>

text \<open>
  An array entry is a floating-point number: NaN or a value. Values are reals here, so
  rounding and the infinities are outside the model. A 2D array is the list of its rows.
\<close>

datatype flt = NaN | Val real

definition isnan :: "flt \<Rightarrow> bool" where
  "isnan v = (case v of NaN \<Rightarrow> True | Val r \<Rightarrow> False)"

text \<open>
  The cell that fits the cutout of the moment map:
  \<^verbatim>\<open>
  # And fit with the Levenberg-Marquardt algorithm and least squares statistic.
  fit_p = fitting.LevMarLSQFitter()
  # Set NaNs to 0 for the fit.
  moment0_cutout_quant = moment0_cutout.quantity
  moment0_cutout_quant[np.isnan(moment0_cutout_quant)] = 0.
  ...
      p_gauss2D = fit_p(p_init_gauss2D, xx, yy, moment0_cutout_quant)
  \<close>
  The fitter is a library object; the cell is a function of it.
\<close>

definition set_nans_to_zero :: "flt list list \<Rightarrow> flt list list" where
  "set_nans_to_zero q = map (map (\<lambda>v. if isnan v then Val 0 else v)) q"

definition fit_2d ::
  "('m \<Rightarrow> real list list \<Rightarrow> real list list \<Rightarrow> flt list list \<Rightarrow> 'r) \<Rightarrow>
     'm \<Rightarrow> real list list \<Rightarrow> real list list \<Rightarrow> flt list list \<Rightarrow> 'r" where
  "fit_2d fit_p p_init xx yy moment0_cutout =
     fit_p p_init xx yy (set_nans_to_zero moment0_cutout)"

text \<open>
  The least squares statistic of a model \<open>f\<close> on the arrays handed to the fitter: the
  sum over the pixels, in row-major order, of the squared residuals. A NaN observation
  makes its residual, and with it the sum, NaN.
\<close>

fun fadd :: "flt \<Rightarrow> flt \<Rightarrow> flt" where
  "fadd (Val a) (Val b) = Val (a + b)"
| "fadd _ _ = NaN"

definition pixels ::
  "real list list \<Rightarrow> real list list \<Rightarrow> flt list list \<Rightarrow> (real \<times> real \<times> flt) list" where
  "pixels xx yy z = zip (concat xx) (zip (concat yy) (concat z))"

definition sq_residual :: "(real \<Rightarrow> real \<Rightarrow> real) \<Rightarrow> real \<times> real \<times> flt \<Rightarrow> flt" where
  "sq_residual f px =
     (case px of (x, y, v) \<Rightarrow> (case v of NaN \<Rightarrow> NaN | Val r \<Rightarrow> Val ((r - f x y)\<^sup>2)))"

definition leastsq_statistic ::
  "(real \<Rightarrow> real \<Rightarrow> real) \<Rightarrow> real list list \<Rightarrow> real list list \<Rightarrow> flt list list \<Rightarrow> flt" where
  "leastsq_statistic f xx yy z = foldr fadd (map (sq_residual f) (pixels xx yy z)) (Val 0)"

text \<open>
  The two sums the statistic is compared with: the squared residuals of the observations
  that are not NaN, and the squared model values at the pixels whose observation is NaN
  (the squared residuals of an observed 0 there).
\<close>

definition nan_excluded_sum ::
  "(real \<Rightarrow> real \<Rightarrow> real) \<Rightarrow> real list list \<Rightarrow> real list list \<Rightarrow> flt list list \<Rightarrow> real" where
  "nan_excluded_sum f xx yy z =
     sum_list (map (\<lambda>px. case px of (x, y, v) \<Rightarrow>
                      (case v of NaN \<Rightarrow> 0 | Val r \<Rightarrow> (r - f x y)\<^sup>2)) (pixels xx yy z))"

definition nan_as_zero_sum ::
  "(real \<Rightarrow> real \<Rightarrow> real) \<Rightarrow> real list list \<Rightarrow> real list list \<Rightarrow> flt list list \<Rightarrow> real" where
  "nan_as_zero_sum f xx yy z =
     sum_list (map (\<lambda>px. case px of (x, y, v) \<Rightarrow>
                      (case v of NaN \<Rightarrow> (0 - f x y)\<^sup>2 | Val r \<Rightarrow> 0)) (pixels xx yy z))"

text \<open>
  The model of the cell, \<^verbatim>\<open>models.Gaussian2D\<close>, as astropy documents it: an
  elliptical Gaussian rotated by \<open>theta\<close>.
\<close>

record gaussian2d =
  amplitude :: real
  x_mean :: real
  y_mean :: real
  x_stddev :: real
  y_stddev :: real
  theta :: real

definition Gaussian2D :: "gaussian2d \<Rightarrow> real \<Rightarrow> real \<Rightarrow> real" where
  "Gaussian2D p x y =
     (let cost2 = (cos (theta p))\<^sup>2; sint2 = (sin (theta p))\<^sup>2; sin2t = sin (2 * theta p);
          xstd2 = (x_stddev p)\<^sup>2; ystd2 = (y_stddev p)\<^sup>2;
          xdiff = x - x_mean p; ydiff = y - y_mean p;
          a = 0.5 * (cost2 / xstd2 + sint2 / ystd2);
          b = 0.5 * (sin2t / xstd2 - sin2t / ystd2);
          c = 0.5 * (sint2 / xstd2 + cost2 / ystd2)
      in amplitude p * exp (- (a * xdiff\<^sup>2 + b * xdiff * ydiff + c * ydiff\<^sup>2)))"

text \<open>Two parameter vectors, alike but for the width along \<open>x\<close>.\<close>

definition wide :: gaussian2d where
  "wide = \<lparr>amplitude = 2, x_mean = 0, y_mean = 0, x_stddev = 1, y_stddev = 1, theta = 0\<rparr>"

definition narrow :: gaussian2d where
  "narrow = \<lparr>amplitude = 2, x_mean = 0, y_mean = 0, x_stddev = 1 / 2, y_stddev = 1, theta = 0\<rparr>"

section \<open>Sampling a path (PathSampler)\<close>

text \<open>
  The notebooks sample paths through \<^verbatim>\<open>pvextractor\<close>
  (\<^verbatim>\<open>extract_pv_slice(cube=cube, path=path, spacing=1)\<close>,
  \<^verbatim>\<open>path.show_on_axis(ax, spacing=5, ...)\<close>), a library whose code is not part
  of the repository. Every definition of this section is therefore taken from the
  specification.
\<close>

text \<open>
  Modelled from the spec: the Path and the Sample of the data model, for
  \<^verbatim>\<open>pvextractor.Path\<close> and the sample positions, which are not in the repository. A
  path is an ordered sequence of waypoints, in pixel coordinates, and a perpendicular
  width; a sample has an offset along the path and a centre.
\<close>

type_synonym point = "real \<times> real"

record path =
  waypoints :: "point list"
  width :: real

record sample =
  offset :: real
  center :: point

datatype error = InvalidArgumentError | EmptyPathError

text \<open>
  Modelled from the spec: arc length along the concatenated straight segments of the
  polyline (the geometry of \<^verbatim>\<open>pvextractor\<close>, not in the repository).
\<close>

definition segment_length :: "point \<Rightarrow> point \<Rightarrow> real" where
  "segment_length p q = sqrt ((fst q - fst p)\<^sup>2 + (snd q - snd p)\<^sup>2)"

fun arc_length :: "point list \<Rightarrow> real" where
  "arc_length (p # q # ps) = segment_length p q + arc_length (q # ps)"
| "arc_length _ = 0"

text \<open>
  Modelled from the spec: the point at arc length \<open>d\<close> from the start of the polyline
  (the interpolation of \<^verbatim>\<open>pvextractor\<close>, not in the repository). A distance that
  ends on a vertex belongs to the incoming segment; beyond the last vertex the last
  segment is continued, which the sampler never asks for.
\<close>

definition along :: "point \<Rightarrow> point \<Rightarrow> real \<Rightarrow> point" where
  "along p q d =
     (fst p + d / segment_length p q * (fst q - fst p),
      snd p + d / segment_length p q * (snd q - snd p))"

fun point_at :: "point list \<Rightarrow> real \<Rightarrow> point" where
  "point_at [] d = (0, 0)"
| "point_at [p] d = p"
| "point_at [p, q] d = along p q d"
| "point_at (p # q # r # ps) d =
     (if d \<le> segment_length p q then along p q d
      else point_at (q # r # ps) (d - segment_length p q))"

text \<open>
  Modelled from the spec: \<open>sample(path, spacing)\<close> of the PathSampler, whose code
  (pvextractor) is not in the repository. Sample centres are placed from arc length 0 on,
  one every \<open>spacing\<close>, as long as the total arc length is not passed; a spacing that
  is not positive is refused, and so is a path of fewer than two waypoints.
\<close>

function sample_offsets :: "real \<Rightarrow> real \<Rightarrow> real \<Rightarrow> real list" where
  "sample_offsets arclen spacing d =
     (if 0 < spacing \<and> d \<le> arclen then d # sample_offsets arclen spacing (d + spacing) else [])"
  by pat_completeness auto
termination
proof (relation "measure (\<lambda>(arclen, spacing, d). nat (\<lfloor>(arclen - d) / spacing\<rfloor> + 1))")
  show "wf (measure (\<lambda>(arclen, spacing, d). nat (\<lfloor>(arclen - d) / spacing\<rfloor> + 1)))"
    by simp
next
  fix arclen spacing d :: real
  assume a: "0 < spacing \<and> d \<le> arclen"
  then have s: "0 < spacing" and le: "d \<le> arclen"
    by simp_all
  have "(arclen - (d + spacing)) / spacing = (arclen - d) / spacing - 1"
    using s by (simp add: field_simps)
  then have "\<lfloor>(arclen - (d + spacing)) / spacing\<rfloor> = \<lfloor>(arclen - d) / spacing\<rfloor> - 1"
    by simp
  moreover have "0 \<le> \<lfloor>(arclen - d) / spacing\<rfloor>"
    using s le by simp
  ultimately show "((arclen, spacing, d + spacing), (arclen, spacing, d))
      \<in> measure (\<lambda>(arclen, spacing, d). nat (\<lfloor>(arclen - d) / spacing\<rfloor> + 1))"
    by simp
qed

definition sample_path :: "path \<Rightarrow> real \<Rightarrow> error + sample list" where
  "sample_path p spacing =
     (if spacing \<le> 0 then Inl InvalidArgumentError
      else if length (waypoints p) < 2 then Inl EmptyPathError
      else Inr (map (\<lambda>d. \<lparr>offset = d, center = point_at (waypoints p) d\<rparr>)
                  (sample_offsets (arc_length (waypoints p)) spacing 0)))"

text \<open>
  The words in which the properties of the sampler are stated, written on the waypoints
  alone: the Euclidean distance of two points, the length of the polyline as the sum
  of the distances of consecutive waypoints, and the point at the fraction \<open>t\<close> of the
  straight segment from \<open>a\<close> to \<open>b\<close>.
\<close>

abbreviation euclid :: "point \<Rightarrow> point \<Rightarrow> real" where
  "euclid a b \<equiv> sqrt ((fst b - fst a)\<^sup>2 + (snd b - snd a)\<^sup>2)"

abbreviation polyline_length :: "point list \<Rightarrow> real" where
  "polyline_length w \<equiv> (\<Sum>k < length w - 1. euclid (w ! k) (w ! Suc k))"

abbreviation on_segment :: "point \<Rightarrow> point \<Rightarrow> real \<Rightarrow> point" where
  "on_segment a b t \<equiv> (fst a + t * (fst b - fst a), snd a + t * (snd b - snd a))"

definition straight :: path where
  "straight = \<lparr>waypoints = [(0, 0), (10, 0)], width = 0\<rparr>"

definition bent :: path where
  "bent = \<lparr>waypoints = [(0, 0), (3, 4), (3, 10)], width = 0\<rparr>"

section \<open>Moment maps (MomentReducer)\<close>

text \<open>
  The notebooks take moment maps through \<^verbatim>\<open>spectral-cube\<close>
  (\<^verbatim>\<open>far3kpcarm.moment0()\<close>,
  \<^verbatim>\<open>masked_cube.spectral_slab(-230 * u.km / u.s, -190 * u.km / u.s).moment0()\<close>),
  a library whose code is not part of the repository. Every definition of this section is
  therefore taken from the specification.
\<close>

text \<open>
  Modelled from the spec: the Cube of the data model, for
  \<^verbatim>\<open>spectral_cube.SpectralCube\<close>, which is not in the repository. A cube is a 3D array
  indexed by channel, row and column, with an optional mask, the velocity of every
  channel and the width of a channel. Its spatial shape is read off its first plane.
\<close>

record cube =
  cube_data :: "flt list list list"
  cube_mask :: "bool list list list option"
  spectral_coords :: "real list"
  channel_width :: real

definition spatial_shape :: "cube \<Rightarrow> nat \<times> nat" where
  "spatial_shape c =
     (case cube_data c of
        [] \<Rightarrow> (0, 0)
      | plane # _ \<Rightarrow> (length plane, (case plane of [] \<Rightarrow> 0 | row # _ \<Rightarrow> length row)))"

text \<open>
  Modelled from the spec: the elements the mask leaves valid (the reads of
  \<^verbatim>\<open>SpectralCube\<close>, not in the repository). A read outside the array gives NaN, a read
  outside the mask gives False.
\<close>

definition value_at :: "cube \<Rightarrow> nat \<Rightarrow> nat \<Rightarrow> nat \<Rightarrow> flt" where
  "value_at c k y x =
     (if k < length (cube_data c) \<and> y < length (cube_data c ! k) \<and>
         x < length (cube_data c ! k ! y)
      then cube_data c ! k ! y ! x else NaN)"

definition unmasked :: "cube \<Rightarrow> nat \<Rightarrow> nat \<Rightarrow> nat \<Rightarrow> bool" where
  "unmasked c k y x =
     (case cube_mask c of
        None \<Rightarrow> True
      | Some m \<Rightarrow> k < length m \<and> y < length (m ! k) \<and> x < length (m ! k ! y) \<and> m ! k ! y ! x)"

text \<open>
  Modelled from the spec: \<open>moment(cube, 0, velocity_range)\<close> of the MomentReducer,
  whose code (spectral-cube) is not in the repository. The channels whose velocity lies in
  the range, lower bound included and upper bound excluded, are selected; for every pixel
  the selected channels are run through, adding up the values that are unmasked and not
  NaN and counting them; the pixel is NaN when nothing was counted, and the sum times the
  channel width otherwise.
\<close>

definition selected :: "cube \<Rightarrow> real \<times> real \<Rightarrow> nat list" where
  "selected c vr =
     filter (\<lambda>k. k < length (spectral_coords c) \<and>
                 fst vr \<le> spectral_coords c ! k \<and> spectral_coords c ! k < snd vr)
       [0 ..< length (cube_data c)]"

definition add_channel :: "cube \<Rightarrow> nat \<Rightarrow> nat \<Rightarrow> real \<times> nat \<Rightarrow> nat \<Rightarrow> real \<times> nat" where
  "add_channel c y x acc k =
     (if unmasked c k y x
      then (case value_at c k y x of NaN \<Rightarrow> acc | Val r \<Rightarrow> (fst acc + r, Suc (snd acc)))
      else acc)"

definition moment0_pixel :: "cube \<Rightarrow> nat list \<Rightarrow> nat \<Rightarrow> nat \<Rightarrow> flt" where
  "moment0_pixel c sel y x =
     (let acc = foldl (add_channel c y x) (0, 0) sel
      in if snd acc = 0 then NaN else Val (fst acc * channel_width c))"

definition moment0 :: "cube \<Rightarrow> real \<times> real \<Rightarrow> flt list list" where
  "moment0 c vr =
     map (\<lambda>y. map (\<lambda>x. moment0_pixel c (selected c vr) y x) [0 ..< snd (spatial_shape c)])
       [0 ..< fst (spatial_shape c)]"

text \<open>
  The values of a pixel that count, in the words of the specification: those of the
  selected channels that are unmasked and not NaN.
\<close>

definition contributions :: "cube \<Rightarrow> nat list \<Rightarrow> nat \<Rightarrow> nat \<Rightarrow> real list" where
  "contributions c sel y x =
     concat (map (\<lambda>k. if unmasked c k y x
                       then (case value_at c k y x of NaN \<Rightarrow> [] | Val r \<Rightarrow> [r])
                       else []) sel)"

text \<open>
  A cube of three channels at velocities 0, 10 and 20, one row and three columns; the
  second column is NaN in channel 10, the third is masked throughout.
\<close>

definition small_cube :: cube where
  "small_cube =
     \<lparr>cube_data = [[[Val 1, Val 2, Val 3]], [[Val 4, NaN, Val 6]], [[Val 7, Val 8, Val 9]]],
      cube_mask = Some [[[True, True, False]], [[True, True, False]], [[True, True, False]]],
      spectral_coords = [0, 10, 20],
      channel_width = 10\<rparr>"

chapter \<open>Properties\<close>

section \<open>Properties of the velocity windows\<close>

lemma longitudes_count:
  "nat \<lceil>((lmin - 0.01) - lmax) / (- 1 / 8)\<rceil> = 197"
proof -
  have "((lmin - 0.01) - lmax) / (- 1 / 8) = (19608 / 100 :: real)"
    unfolding lmin_def lmax_def by simp
  moreover have "\<lceil>19608 / 100 :: real\<rceil> = 197"
    by (simp add: ceiling_eq_iff)
  ultimately show ?thesis
    by (simp only: nat_numeral)
qed

lemma length_longitudes: "length longitudes = 197"
  unfolding longitudes_def arange_def
  by (simp only: length_map length_upt longitudes_count diff_zero)

lemma nth_longitudes: "i < 197 \<Longrightarrow> longitudes ! i = lmax - real i / 8"
  unfolding longitudes_def arange_def
  by (simp only: longitudes_count) simp

lemma length_far3kpcarm_mask: "length (far3kpcarm_mask spectral_axis) = 197"
  by (simp add: far3kpcarm_mask_def length_longitudes)

text \<open>
  C2, as the notebook computes it: for every longitude of the map and every spectral
  channel, the channel is in that longitude's row of the mask if and only if its velocity
  lies strictly between the two bounds of the window; both bounds are exclusive.
\<close>

theorem far3kpcarm_mask_open_window:
  "i < length longitudes \<Longrightarrow> k < length spectral_axis \<Longrightarrow>
     far3kpcarm_mask spectral_axis ! i ! k \<longleftrightarrow>
       v_min (longitudes ! i) < spectral_axis ! k \<and> spectral_axis ! k < v_max (longitudes ! i)"
proof -
  assume i: "i < length longitudes" and k: "k < length spectral_axis"
  let ?l = "longitudes ! i"
  have row: "far3kpcarm_mask spectral_axis ! i =
      map (\<lambda>v. v > v_of_l ?l - 13 \<and> v < v_of_l ?l + 13) spectral_axis"
    using i by (simp add: far3kpcarm_mask_def)
  have "far3kpcarm_mask spectral_axis ! i ! k \<longleftrightarrow>
      spectral_axis ! k > v_of_l ?l - 13 \<and> spectral_axis ! k < v_of_l ?l + 13"
    using k by (simp add: row)
  then show ?thesis
    by (simp add: v_min_def v_max_def)
qed

theorem far3kpcarm_mask_open_window_witness:
  "(0::nat) < length longitudes \<and> (0::nat) < length [100 :: real] \<and>
   far3kpcarm_mask [100] ! 0 ! 0 \<and>
   v_min (longitudes ! 0) < [100 :: real] ! 0 \<and> [100 :: real] ! 0 < v_max (longitudes ! 0)"
proof -
  have h1: "(0::nat) < length longitudes"
    by (simp add: length_longitudes)
  have h2: "(0::nat) < length [100 :: real]"
    by simp
  have l0: "longitudes ! 0 = 25 / 2"
    using nth_longitudes [of 0] by (simp add: lmax_def)
  have "v_min (longitudes ! 0) < [100 :: real] ! 0 \<and> [100 :: real] ! 0 < v_max (longitudes ! 0)"
    by (simp add: l0 v_min_def v_max_def v_of_l_def)
  then show ?thesis
    using far3kpcarm_mask_open_window [OF h1 h2] h1 by simp
qed

text \<open>
  The lower bound is not inclusive: a channel whose velocity equals the lower bound of
  the window at longitude 12.5 (velocity 93) satisfies \<open>v_min \<le> v < v_max\<close> and is
  not in the mask.
\<close>

theorem far3kpcarm_mask_lower_bound_counterexample:
  "\<not> (far3kpcarm_mask [93] ! 0 ! 0 \<longleftrightarrow>
        v_min (longitudes ! 0) \<le> [93 :: real] ! 0 \<and> [93 :: real] ! 0 < v_max (longitudes ! 0))"
proof -
  have l0: "longitudes ! 0 = 25 / 2"
    using nth_longitudes [of 0] by (simp add: lmax_def)
  have len: "(0::nat) < length longitudes"
    by (simp add: length_longitudes)
  have "\<not> far3kpcarm_mask [93] ! 0 ! 0"
    using len by (simp add: far3kpcarm_mask_def l0 v_of_l_def)
  moreover have "v_min (longitudes ! 0) \<le> [93 :: real] ! 0 \<and> [93 :: real] ! 0 < v_max (longitudes ! 0)"
    by (simp add: l0 v_min_def v_max_def v_of_l_def)
  ultimately show ?thesis by blast
qed

section \<open>Properties of the fetch cells\<close>








section \<open>Properties of the 2D fit\<close>

lemma isnan_iff: "isnan v \<longleftrightarrow> v = NaN"
  by (cases v) (simp_all add: isnan_def)

lemma concat_set_nans_to_zero:
  "concat (set_nans_to_zero z) = map (\<lambda>v. if isnan v then Val 0 else v) (concat z)"
  by (simp add: set_nans_to_zero_def map_concat)

lemma pixels_set_nans_to_zero:
  "pixels xx yy (set_nans_to_zero z) =
     map (\<lambda>px. case px of (x, y, v) \<Rightarrow> (x, y, if isnan v then Val 0 else v)) (pixels xx yy z)"
proof -
  have inner: "zip ys (map g vs) = map (\<lambda>(y, v). (y, g v)) (zip ys vs)"
    for ys :: "real list" and vs :: "flt list" and g
    by (simp add: zip_map2)
  have outer: "zip xs (map (\<lambda>(y, v). (y, g v)) ps) = map (\<lambda>(x, y, v). (x, y, g v)) (zip xs ps)"
    for xs :: "real list" and ps :: "(real \<times> flt) list" and g
    by (simp add: zip_map2 case_prod_unfold)
  show ?thesis
    unfolding pixels_def concat_set_nans_to_zero inner outer ..
qed

lemma statistic_of_filled_pixels:
  "foldr fadd (map (sq_residual f)
       (map (\<lambda>px. case px of (x, y, v) \<Rightarrow> (x, y, if isnan v then Val 0 else v)) ps)) (Val 0) =
   Val (sum_list (map (\<lambda>px. case px of (x, y, v) \<Rightarrow>
                    (case v of NaN \<Rightarrow> 0 | Val r \<Rightarrow> (r - f x y)\<^sup>2)) ps) +
        sum_list (map (\<lambda>px. case px of (x, y, v) \<Rightarrow>
                    (case v of NaN \<Rightarrow> (0 - f x y)\<^sup>2 | Val r \<Rightarrow> 0)) ps))"
proof (induction ps)
  case Nil
  show ?case by simp
next
  case (Cons px ps)
  obtain x y v where px: "px = (x, y, v)"
    by (cases px) auto
  show ?case
    using Cons.IH by (cases v) (simp_all add: px sq_residual_def isnan_def)
qed

text \<open>
  C1, as the cell does it: the array handed to the fitter has the shape of the cutout,
  holds no NaN, holds 0 wherever the cutout holds NaN and the cutout's value elsewhere;
  so the least squares statistic on it is, for every model, the sum of the squared
  residuals of the observations that are not NaN plus the squared model value at every
  NaN pixel: a NaN counts as an observed 0 and is not left out of the sum.
\<close>

theorem fit_2d_counts_nan_as_zero:
  "fit_2d fit_p p_init xx yy z = fit_p p_init xx yy (set_nans_to_zero z) \<and>
   map length (set_nans_to_zero z) = map length z \<and>
   NaN \<notin> set (concat (set_nans_to_zero z)) \<and>
   concat (set_nans_to_zero z) = map (\<lambda>v. if v = NaN then Val 0 else v) (concat z) \<and>
   leastsq_statistic f xx yy (set_nans_to_zero z) =
     Val (nan_excluded_sum f xx yy z + nan_as_zero_sum f xx yy z)"
proof (intro conjI)
  show "fit_2d fit_p p_init xx yy z = fit_p p_init xx yy (set_nans_to_zero z)"
    by (simp add: fit_2d_def)
  show "map length (set_nans_to_zero z) = map length z"
    by (simp add: set_nans_to_zero_def)
  show "NaN \<notin> set (concat (set_nans_to_zero z))"
    by (auto simp: concat_set_nans_to_zero isnan_iff)
  show "concat (set_nans_to_zero z) = map (\<lambda>v. if v = NaN then Val 0 else v) (concat z)"
    by (simp add: concat_set_nans_to_zero isnan_iff)
  show "leastsq_statistic f xx yy (set_nans_to_zero z) =
     Val (nan_excluded_sum f xx yy z + nan_as_zero_sum f xx yy z)"
    unfolding leastsq_statistic_def nan_excluded_sum_def nan_as_zero_sum_def
      pixels_set_nans_to_zero
    by (rule statistic_of_filled_pixels)
qed

lemma Gaussian2D_wide: "Gaussian2D wide x 0 = 2 * exp (- (x\<^sup>2 / 2))"
  by (simp add: Gaussian2D_def wide_def)

lemma Gaussian2D_narrow: "Gaussian2D narrow x 0 = 2 * exp (- (2 * x\<^sup>2))"
  by (simp add: Gaussian2D_def narrow_def power_divide)

text \<open>
  A NaN is not left out of the sum. On the cutout with the one row \<open>[2, NaN]\<close> at
  \<open>x = 0, 1\<close> the fitter is handed \<open>[2, 0]\<close>. The Gaussian \<open>wide\<close> passes through
  the one observation that is not NaN, so it minimises the sum over those observations
  (which is 0 there); the statistic the fitter minimises is positive there and smaller
  at \<open>narrow\<close>.
\<close>

theorem fit_2d_nan_counterexample:
  "set_nans_to_zero [[Val 2, NaN]] = [[Val 2, Val 0]] \<and>
   nan_excluded_sum (Gaussian2D wide) [[0, 1]] [[0, 0]] [[Val 2, NaN]] = 0 \<and>
   leastsq_statistic (Gaussian2D wide) [[0, 1]] [[0, 0]] (set_nans_to_zero [[Val 2, NaN]]) =
     Val ((2 * exp (- (1 / 2)))\<^sup>2) \<and>
   leastsq_statistic (Gaussian2D narrow) [[0, 1]] [[0, 0]] (set_nans_to_zero [[Val 2, NaN]]) =
     Val ((2 * exp (- 2))\<^sup>2) \<and>
   (2 * exp (- 2 :: real))\<^sup>2 < (2 * exp (- (1 / 2)))\<^sup>2 \<and>
   0 < (2 * exp (- (1 / 2) :: real))\<^sup>2"
proof (intro conjI)
  show fill: "set_nans_to_zero [[Val 2, NaN]] = [[Val 2, Val 0]]"
    by (simp add: set_nans_to_zero_def isnan_def)
  show "nan_excluded_sum (Gaussian2D wide) [[0, 1]] [[0, 0]] [[Val 2, NaN]] = 0"
    by (simp add: nan_excluded_sum_def pixels_def Gaussian2D_wide)
  show "leastsq_statistic (Gaussian2D wide) [[0, 1]] [[0, 0]] (set_nans_to_zero [[Val 2, NaN]]) =
     Val ((2 * exp (- (1 / 2)))\<^sup>2)"
    by (simp add: fill leastsq_statistic_def pixels_def sq_residual_def Gaussian2D_wide)
  show "leastsq_statistic (Gaussian2D narrow) [[0, 1]] [[0, 0]] (set_nans_to_zero [[Val 2, NaN]]) =
     Val ((2 * exp (- 2))\<^sup>2)"
    by (simp add: fill leastsq_statistic_def pixels_def sq_residual_def Gaussian2D_narrow)
  have "exp (- 2 :: real) < exp (- (1 / 2))"
    by simp
  then have "2 * exp (- 2 :: real) < 2 * exp (- (1 / 2))"
    by simp
  then show "(2 * exp (- 2 :: real))\<^sup>2 < (2 * exp (- (1 / 2)))\<^sup>2"
    by (intro power_strict_mono) simp_all
  show "0 < (2 * exp (- (1 / 2) :: real))\<^sup>2"
    by simp
qed

section \<open>Properties of the path sampler\<close>

declare sample_offsets.simps [simp del]

lemma sample_offsets_Nil: "arclen < d \<Longrightarrow> sample_offsets arclen spacing d = []"
  by (simp add: sample_offsets.simps)

lemma sample_offsets_Cons:
  "0 < spacing \<Longrightarrow> d \<le> arclen \<Longrightarrow>
     sample_offsets arclen spacing d = d # sample_offsets arclen spacing (d + spacing)"
  by (subst sample_offsets.simps) simp

text \<open>
  The loop makes \<open>n + 1\<close> offsets when \<open>n\<close> whole spacings fit between the start and the
  total length; the offset of index \<open>i\<close> is \<open>i\<close> spacings from the start.
\<close>

lemma sample_offsets_steps:
  assumes "0 < spacing"
  shows "d + real n * spacing \<le> arclen \<Longrightarrow> arclen < d + real (Suc n) * spacing \<Longrightarrow>
     sample_offsets arclen spacing d = map (\<lambda>i. d + real i * spacing) [0 ..< Suc n]"
proof (induction n arbitrary: d)
  case 0
  then have "d \<le> arclen" and "arclen < d + spacing"
    by simp_all
  then show ?case
    using assms by (simp add: sample_offsets_Cons sample_offsets_Nil)
next
  case (Suc n)
  have le: "d \<le> arclen"
  proof -
    have "0 \<le> real (Suc n) * spacing"
      using assms by simp
    then show ?thesis using Suc.prems(1) by linarith
  qed
  have "(d + spacing) + real n * spacing \<le> arclen"
    using Suc.prems(1) by (simp add: algebra_simps)
  moreover have "arclen < (d + spacing) + real (Suc n) * spacing"
    using Suc.prems(2) by (simp add: algebra_simps)
  ultimately have IH: "sample_offsets arclen spacing (d + spacing) =
      map (\<lambda>i. (d + spacing) + real i * spacing) [0 ..< Suc n]"
    by (rule Suc.IH)
  have "map (\<lambda>i. d + real i * spacing) [Suc 0 ..< Suc (Suc n)] =
      map (\<lambda>i. d + real i * spacing) (map Suc [0 ..< Suc n])"
    by (simp only: map_Suc_upt)
  also have "\<dots> = map (\<lambda>i. (d + spacing) + real i * spacing) [0 ..< Suc n]"
    by (simp add: algebra_simps del: upt_Suc)
  finally have shift: "map (\<lambda>i. (d + spacing) + real i * spacing) [0 ..< Suc n] =
      map (\<lambda>i. d + real i * spacing) [Suc 0 ..< Suc (Suc n)]"
    by (rule sym)
  have "sample_offsets arclen spacing d = d # sample_offsets arclen spacing (d + spacing)"
    using assms le by (rule sample_offsets_Cons)
  also have "\<dots> = (d + real (0::nat) * spacing) #
      map (\<lambda>i. d + real i * spacing) [Suc 0 ..< Suc (Suc n)]"
    by (simp only: IH shift) simp
  also have "\<dots> = map (\<lambda>i. d + real i * spacing) (0 # [Suc 0 ..< Suc (Suc n)])"
    by (simp only: list.map)
  also have "0 # [Suc 0 ..< Suc (Suc n)] = [0 ..< Suc (Suc n)]"
    by (rule upt_conv_Cons [symmetric]) simp
  finally show ?case .
qed

lemma sample_offsets_from_start:
  assumes "0 < spacing" and "0 \<le> arclen"
  shows "sample_offsets arclen spacing 0 =
     map (\<lambda>i. real i * spacing) [0 ..< Suc (nat \<lfloor>arclen / spacing\<rfloor>)]"
proof -
  define n where "n = nat \<lfloor>arclen / spacing\<rfloor>"
  have nonneg: "0 \<le> \<lfloor>arclen / spacing\<rfloor>"
    using assms by simp
  have "real n \<le> arclen / spacing"
    using nonneg by (simp add: n_def)
  then have lo: "0 + real n * spacing \<le> arclen"
    using assms(1) by (simp add: field_simps)
  have "arclen / spacing < real n + 1"
    using nonneg by (simp add: n_def)
  then have hi: "arclen < 0 + real (Suc n) * spacing"
    using assms(1) by (simp add: field_simps)
  show ?thesis
    using sample_offsets_steps [OF assms(1) lo hi] by (simp add: n_def)
qed

lemma segment_length_nonneg: "0 \<le> segment_length p q"
  by (simp add: segment_length_def)

lemma arc_length_nonneg: "0 \<le> arc_length ps"
  by (induction ps rule: arc_length.induct) (simp_all add: segment_length_nonneg)

lemma point_at_start: "2 \<le> length ps \<Longrightarrow> point_at ps 0 = hd ps"
  by (induction ps "0 :: real" rule: point_at.induct)
    (simp_all add: along_def segment_length_nonneg)

lemma arc_length_straight: "arc_length (waypoints straight) = 10"
proof -
  have "sqrt 100 = sqrt (10\<^sup>2)"
    by simp
  also have "\<dots> = 10"
    by (simp only: real_sqrt_abs)
  finally show ?thesis
    by (simp add: straight_def segment_length_def)
qed

lemma arc_length_bent: "arc_length (waypoints bent) = 11"
proof -
  have "sqrt 25 = sqrt (5\<^sup>2)" and "sqrt 36 = sqrt (6\<^sup>2)"
    by simp_all
  then have "sqrt 25 = 5" and "sqrt 36 = 6"
    by (simp_all only: real_sqrt_abs)
  then show ?thesis
    by (simp add: bent_def segment_length_def)
qed

lemma arc_length_sum:
  "arc_length ws = (\<Sum>k < length ws - 1. segment_length (ws ! k) (ws ! Suc k))"
proof (induction ws rule: arc_length.induct)
  case (1 p q ps)
  have "(\<Sum>k < length (p # q # ps) - 1.
          segment_length ((p # q # ps) ! k) ((p # q # ps) ! Suc k)) =
        (\<Sum>k < Suc (length ps). segment_length ((p # q # ps) ! k) ((p # q # ps) ! Suc k))"
    by simp
  also have "\<dots> = segment_length p q +
        (\<Sum>k < length ps. segment_length ((q # ps) ! k) ((q # ps) ! Suc k))"
    by (simp add: sum.lessThan_Suc_shift del: sum.lessThan_Suc)
  also have "(\<Sum>k < length ps. segment_length ((q # ps) ! k) ((q # ps) ! Suc k)) =
        arc_length (q # ps)"
    using "1.IH" by simp
  finally show ?case by simp
qed simp_all

lemma along_fraction:
  assumes "0 \<le> d" and "d \<le> segment_length p q"
  shows "0 \<le> d / segment_length p q" and "d / segment_length p q \<le> 1"
    and "d / segment_length p q * segment_length p q = d"
proof -
  show "0 \<le> d / segment_length p q"
    using assms(1) segment_length_nonneg [of p q] by simp
  show "d / segment_length p q \<le> 1"
    using assms segment_length_nonneg [of p q] by (simp add: divide_le_eq)
  show "d / segment_length p q * segment_length p q = d"
    using assms by (cases "segment_length p q = 0") simp_all
qed

text \<open>
  Every distance between 0 and the length of the polyline is reached on one of its
  segments: the point at that distance lies on the segment, and the distance is the
  length of the segments before it plus the part of the segment covered.
\<close>

lemma point_at_on_polyline:
  "2 \<le> length ws \<Longrightarrow> 0 \<le> d \<Longrightarrow> d \<le> arc_length ws \<Longrightarrow>
     \<exists>j t. Suc j < length ws \<and> 0 \<le> t \<and> t \<le> 1 \<and>
       point_at ws d = on_segment (ws ! j) (ws ! Suc j) t \<and>
       d = (\<Sum>k < j. segment_length (ws ! k) (ws ! Suc k)) +
           t * segment_length (ws ! j) (ws ! Suc j)"
proof (induction ws d rule: point_at.induct)
  case (1 d)
  then show ?case by simp
next
  case (2 p d)
  then show ?case by simp
next
  case (3 p q d)
  then have d: "0 \<le> d" "d \<le> segment_length p q"
    by simp_all
  note f = along_fraction [OF d]
  show ?case
    by (rule exI [of _ 0], rule exI [of _ "d / segment_length p q"])
      (use f in \<open>simp add: along_def\<close>)
next
  case (4 p q r ps d)
  show ?case
  proof (cases "d \<le> segment_length p q")
    case True
    note f = along_fraction [OF "4.prems"(2) True]
    show ?thesis
      by (rule exI [of _ 0], rule exI [of _ "d / segment_length p q"])
        (use f True in \<open>simp add: along_def\<close>)
  next
    case False
    let ?d = "d - segment_length p q"
    have "2 \<le> length (q # r # ps)" and "0 \<le> ?d" and "?d \<le> arc_length (q # r # ps)"
      using False "4.prems"(3) by simp_all
    with "4.IH" [OF False]
    obtain j t where jt: "Suc j < length (q # r # ps)" "0 \<le> t" "t \<le> 1"
        "point_at (q # r # ps) ?d = on_segment ((q # r # ps) ! j) ((q # r # ps) ! Suc j) t"
        "?d = (\<Sum>k < j. segment_length ((q # r # ps) ! k) ((q # r # ps) ! Suc k)) +
            t * segment_length ((q # r # ps) ! j) ((q # r # ps) ! Suc j)"
      by blast
    have sum: "(\<Sum>k < Suc j. segment_length ((p # q # r # ps) ! k) ((p # q # r # ps) ! Suc k)) =
        segment_length p q +
        (\<Sum>k < j. segment_length ((q # r # ps) ! k) ((q # r # ps) ! Suc k))"
      by (simp add: sum.lessThan_Suc_shift del: sum.lessThan_Suc)
    have pt: "point_at (p # q # r # ps) d =
        on_segment ((p # q # r # ps) ! Suc j) ((p # q # r # ps) ! Suc (Suc j)) t"
      using False jt(4) by simp
    have dist: "d = (\<Sum>k < Suc j. segment_length ((p # q # r # ps) ! k)
                       ((p # q # r # ps) ! Suc k)) +
                    t * segment_length ((p # q # r # ps) ! Suc j) ((p # q # r # ps) ! Suc (Suc j))"
      using jt(5) by (simp only: sum) simp
    have "Suc (Suc j) < length (p # q # r # ps)"
      using jt(1) by simp
    then show ?thesis
      using jt(2,3) pt dist by blast
  qed
qed

text \<open>
  C3, for the sampler of the specification, stated on the waypoints of the path: for a
  path of at least two waypoints and a positive spacing, sampling succeeds; for the length
  \<open>L\<close> of the polyline there are \<open>\<lfloor>L / spacing\<rfloor> + 1\<close> samples; the sample of index
  \<open>i\<close> has the offset \<open>i\<close> spacings, which is not more than \<open>L\<close>, and its centre
  lies on a segment of the polyline, at the place where the length of the segments before
  it plus the part of the segment covered is that offset; the first sample is at offset 0
  on the first waypoint, and one more spacing would pass the end. The straight path from
  \<open>(0, 0)\<close> to \<open>(10, 0)\<close> sampled every 5 gives exactly the offsets 0, 5 and 10,
  at \<open>(0, 0)\<close>, \<open>(5, 0)\<close> and \<open>(10, 0)\<close>.
\<close>

theorem sample_path_uniform:
  "(0 < spacing \<and> 2 \<le> length (waypoints p) \<longrightarrow>
      (\<exists>ss. sample_path p spacing = Inr ss \<and>
         length ss = nat \<lfloor>polyline_length (waypoints p) / spacing\<rfloor> + 1 \<and>
         (\<forall>i < length ss.
            offset (ss ! i) = real i * spacing \<and>
            offset (ss ! i) \<le> polyline_length (waypoints p) \<and>
            (\<exists>j t. Suc j < length (waypoints p) \<and> 0 \<le> t \<and> t \<le> 1 \<and>
               center (ss ! i) = on_segment (waypoints p ! j) (waypoints p ! Suc j) t \<and>
               offset (ss ! i) =
                 (\<Sum>k < j. euclid (waypoints p ! k) (waypoints p ! Suc k)) +
                 t * euclid (waypoints p ! j) (waypoints p ! Suc j))) \<and>
         offset (ss ! 0) = 0 \<and> center (ss ! 0) = waypoints p ! 0 \<and>
         polyline_length (waypoints p) < real (length ss) * spacing)) \<and>
   sample_path straight 5 =
     Inr [\<lparr>offset = 0, center = (0, 0)\<rparr>, \<lparr>offset = 5, center = (5, 0)\<rparr>,
          \<lparr>offset = 10, center = (10, 0)\<rparr>]"
proof (intro conjI impI)
  assume a: "0 < spacing \<and> 2 \<le> length (waypoints p)"
  then have s: "0 < spacing" and w: "2 \<le> length (waypoints p)"
    by simp_all
  let ?w = "waypoints p"
  let ?L = "arc_length ?w"
  define n where "n = nat \<lfloor>?L / spacing\<rfloor>"
  define ss where "ss = map (\<lambda>d. \<lparr>offset = d, center = point_at ?w d\<rparr>)
      (map (\<lambda>i. real i * spacing) [0 ..< Suc n])"
  have L: "?L = polyline_length ?w"
    by (simp only: arc_length_sum segment_length_def)
  have L0: "0 \<le> ?L"
    by (rule arc_length_nonneg)
  have offs: "sample_offsets ?L spacing 0 = map (\<lambda>i. real i * spacing) [0 ..< Suc n]"
    unfolding n_def using s L0 by (rule sample_offsets_from_start)
  have run: "sample_path p spacing = Inr ss"
    using s w by (simp add: sample_path_def ss_def offs)
  have len: "length ss = nat \<lfloor>?L / spacing\<rfloor> + 1"
    by (simp add: ss_def n_def)
  have nonneg: "0 \<le> \<lfloor>?L / spacing\<rfloor>"
    using s L0 by simp
  have nth: "ss ! i = \<lparr>offset = real i * spacing, center = point_at ?w (real i * spacing)\<rparr>"
    if "i < length ss" for i
  proof -
    have "i < Suc n"
      using that by (simp add: ss_def)
    then show ?thesis
      unfolding ss_def by (simp del: upt_Suc)
  qed
  have within: "real i * spacing \<le> ?L" if "i < length ss" for i
  proof -
    have "i < Suc n"
      using that by (simp add: ss_def)
    then have "real i \<le> real n"
      by simp
    also have "real n \<le> ?L / spacing"
      using nonneg by (simp add: n_def)
    finally show ?thesis
      using s by (simp add: field_simps)
  qed
  have each: "\<forall>i < length ss.
      offset (ss ! i) = real i * spacing \<and>
      offset (ss ! i) \<le> polyline_length ?w \<and>
      (\<exists>j t. Suc j < length ?w \<and> 0 \<le> t \<and> t \<le> 1 \<and>
         center (ss ! i) = on_segment (?w ! j) (?w ! Suc j) t \<and>
         offset (ss ! i) =
           (\<Sum>k < j. euclid (?w ! k) (?w ! Suc k)) + t * euclid (?w ! j) (?w ! Suc j))"
  proof (intro allI impI)
    fix i assume i: "i < length ss"
    let ?d = "real i * spacing"
    have d0: "0 \<le> ?d"
      using s by simp
    from point_at_on_polyline [OF w d0 within [OF i]]
    obtain j t where jt: "Suc j < length ?w" "0 \<le> t" "t \<le> 1"
        "point_at ?w ?d = on_segment (?w ! j) (?w ! Suc j) t"
        "?d = (\<Sum>k < j. segment_length (?w ! k) (?w ! Suc k)) +
            t * segment_length (?w ! j) (?w ! Suc j)"
      by blast
    have place: "?d = (\<Sum>k < j. euclid (?w ! k) (?w ! Suc k)) + t * euclid (?w ! j) (?w ! Suc j)"
      using jt(5) by (simp only: segment_length_def)
    have "\<exists>j t. Suc j < length ?w \<and> 0 \<le> t \<and> t \<le> 1 \<and>
         center (ss ! i) = on_segment (?w ! j) (?w ! Suc j) t \<and>
         offset (ss ! i) =
           (\<Sum>k < j. euclid (?w ! k) (?w ! Suc k)) + t * euclid (?w ! j) (?w ! Suc j)"
      using jt(1,2,3,4) place by (simp only: nth [OF i] sample.simps) blast
    moreover have "offset (ss ! i) = ?d"
      by (simp add: nth [OF i])
    moreover have "offset (ss ! i) \<le> polyline_length ?w"
      using within [OF i] by (simp only: nth [OF i] sample.simps L)
    ultimately show "offset (ss ! i) = real i * spacing \<and>
      offset (ss ! i) \<le> polyline_length ?w \<and>
      (\<exists>j t. Suc j < length ?w \<and> 0 \<le> t \<and> t \<le> 1 \<and>
         center (ss ! i) = on_segment (?w ! j) (?w ! Suc j) t \<and>
         offset (ss ! i) =
           (\<Sum>k < j. euclid (?w ! k) (?w ! Suc k)) + t * euclid (?w ! j) (?w ! Suc j))"
      by blast
  qed
  have pos: "0 < length ss"
    by (simp add: len)
  have first0: "offset (ss ! 0) = 0"
    by (simp add: nth [OF pos])
  have "hd ?w = ?w ! 0"
    using w by (cases ?w) simp_all
  then have first: "center (ss ! 0) = ?w ! 0"
    using point_at_start [OF w] by (simp add: nth [OF pos])
  have "?L / spacing < real n + 1"
    using nonneg by (simp add: n_def)
  then have "?L < (real n + 1) * spacing"
    using s by (simp add: field_simps)
  then have "?L < real (length ss) * spacing"
    by (simp add: len n_def algebra_simps)
  then have past: "polyline_length ?w < real (length ss) * spacing"
    by (simp only: L)
  have len': "length ss = nat \<lfloor>polyline_length ?w / spacing\<rfloor> + 1"
    using len by (simp only: L)
  show "\<exists>ss. sample_path p spacing = Inr ss \<and>
         length ss = nat \<lfloor>polyline_length ?w / spacing\<rfloor> + 1 \<and>
         (\<forall>i < length ss.
            offset (ss ! i) = real i * spacing \<and>
            offset (ss ! i) \<le> polyline_length ?w \<and>
            (\<exists>j t. Suc j < length ?w \<and> 0 \<le> t \<and> t \<le> 1 \<and>
               center (ss ! i) = on_segment (?w ! j) (?w ! Suc j) t \<and>
               offset (ss ! i) =
                 (\<Sum>k < j. euclid (?w ! k) (?w ! Suc k)) + t * euclid (?w ! j) (?w ! Suc j))) \<and>
         offset (ss ! 0) = 0 \<and> center (ss ! 0) = ?w ! 0 \<and>
         polyline_length ?w < real (length ss) * spacing"
    using run len' each first0 first past by blast
next
  have offs: "sample_offsets 10 5 0 = [0, 5, 10]"
    by (simp add: sample_offsets_Cons sample_offsets_Nil)
  have run: "sample_path straight 5 =
      Inr (map (\<lambda>d. \<lparr>offset = d, center = point_at (waypoints straight) d\<rparr>) [0, 5, 10])"
    using arc_length_straight by (simp add: sample_path_def offs) (simp add: straight_def)
  have len: "segment_length (0, 0) (10, 0) = 10"
    using arc_length_straight by (simp add: straight_def)
  show "sample_path straight 5 =
     Inr [\<lparr>offset = 0, center = (0, 0)\<rparr>, \<lparr>offset = 5, center = (5, 0)\<rparr>,
          \<lparr>offset = 10, center = (10, 0)\<rparr>]"
    by (simp only: run) (simp add: straight_def along_def len)
qed

text \<open>
  The theorem on the path from \<open>(0, 0)\<close> over \<open>(3, 4)\<close> to \<open>(3, 10)\<close>, of
  length 11, sampled every 2: six samples, the last at offset 10, each on the polyline.
\<close>

theorem sample_path_uniform_witness:
  "(0 :: real) < 2 \<and> 2 \<le> length (waypoints bent) \<and>
   (\<exists>ss. sample_path bent 2 = Inr ss \<and> length ss = 6 \<and>
      offset (ss ! 0) = 0 \<and> center (ss ! 0) = (0, 0) \<and> offset (ss ! 5) = 10 \<and>
      (\<exists>j t. Suc j < length (waypoints bent) \<and> 0 \<le> t \<and> t \<le> 1 \<and>
         center (ss ! 5) = on_segment (waypoints bent ! j) (waypoints bent ! Suc j) t))"
proof -
  have h: "(0 :: real) < 2 \<and> 2 \<le> length (waypoints bent)"
    by (simp add: bent_def)
  have L: "polyline_length (waypoints bent) = 11"
    using arc_length_bent by (simp only: arc_length_sum segment_length_def)
  have n: "nat \<lfloor>11 / 2 :: real\<rfloor> = 5"
    by (simp add: floor_eq_iff)
  from sample_path_uniform [of 2 bent] h
  obtain ss where ss: "sample_path bent 2 = Inr ss"
      "length ss = nat \<lfloor>polyline_length (waypoints bent) / 2\<rfloor> + 1"
      "\<forall>i < length ss.
          offset (ss ! i) = real i * 2 \<and>
          offset (ss ! i) \<le> polyline_length (waypoints bent) \<and>
          (\<exists>j t. Suc j < length (waypoints bent) \<and> 0 \<le> t \<and> t \<le> 1 \<and>
             center (ss ! i) = on_segment (waypoints bent ! j) (waypoints bent ! Suc j) t \<and>
             offset (ss ! i) =
               (\<Sum>k < j. euclid (waypoints bent ! k) (waypoints bent ! Suc k)) +
               t * euclid (waypoints bent ! j) (waypoints bent ! Suc j))"
      "offset (ss ! 0) = 0" "center (ss ! 0) = waypoints bent ! 0"
    by blast
  have len: "length ss = 6"
    using ss(2) by (simp only: L n)
  have five: "5 < length ss"
    by (simp add: len)
  have "offset (ss ! 5) = 10"
    using ss(3) five by simp
  moreover have "center (ss ! 0) = (0, 0)"
    using ss(5) by (simp add: bent_def)
  moreover have "\<exists>j t. Suc j < length (waypoints bent) \<and> 0 \<le> t \<and> t \<le> 1 \<and>
         center (ss ! 5) = on_segment (waypoints bent ! j) (waypoints bent ! Suc j) t"
    using ss(3) five by blast
  ultimately show ?thesis
    using h ss(1) ss(4) len by blast
qed

section \<open>Properties of the moment map\<close>

lemma foldl_add_channel:
  "foldl (add_channel c y x) (s, n) ks =
     (s + sum_list (contributions c ks y x), n + length (contributions c ks y x))"
proof (induction ks arbitrary: s n)
  case Nil
  show ?case by (simp add: contributions_def)
next
  case (Cons k ks)
  show ?case
  proof (cases "unmasked c k y x")
    case False
    then have "add_channel c y x (s, n) k = (s, n)"
      and "contributions c (k # ks) y x = contributions c ks y x"
      by (simp_all add: add_channel_def contributions_def)
    then show ?thesis using Cons.IH by simp
  next
    case True
    show ?thesis
    proof (cases "value_at c k y x")
      case NaN
      then have "add_channel c y x (s, n) k = (s, n)"
        and "contributions c (k # ks) y x = contributions c ks y x"
        using True by (simp_all add: add_channel_def contributions_def)
      then show ?thesis using Cons.IH by simp
    next
      case (Val r)
      then have "add_channel c y x (s, n) k = (s + r, Suc n)"
        and "contributions c (k # ks) y x = r # contributions c ks y x"
        using True by (simp_all add: add_channel_def contributions_def)
      then show ?thesis using Cons.IH by simp
    qed
  qed
qed

lemma moment0_pixel_eq:
  "moment0_pixel c sel y x =
     (if contributions c sel y x = [] then NaN
      else Val (sum_list (contributions c sel y x) * channel_width c))"
  by (simp add: moment0_pixel_def foldl_add_channel Let_def)

lemma moment0_shape:
  "length (moment0 c vr) = fst (spatial_shape c)"
  "row \<in> set (moment0 c vr) \<Longrightarrow> length row = snd (spatial_shape c)"
  by (auto simp: moment0_def)

lemma moment0_nth:
  "y < fst (spatial_shape c) \<Longrightarrow> x < snd (spatial_shape c) \<Longrightarrow>
     moment0 c vr ! y ! x = moment0_pixel c (selected c vr) y x"
  by (simp add: moment0_def)

lemma contributions_filter:
  "contributions c ks y x =
     map (\<lambda>k. case value_at c k y x of NaN \<Rightarrow> 0 | Val r \<Rightarrow> r)
       (filter (\<lambda>k. unmasked c k y x \<and> value_at c k y x \<noteq> NaN) ks)"
proof (induction ks)
  case Nil
  show ?case by (simp add: contributions_def)
next
  case (Cons k ks)
  have step: "contributions c (k # ks) y x =
      (if unmasked c k y x
       then (case value_at c k y x of NaN \<Rightarrow> [] | Val r \<Rightarrow> [r]) else []) @
      contributions c ks y x"
    by (simp add: contributions_def)
  show ?case
    unfolding step Cons.IH by (cases "value_at c k y x") simp_all
qed

text \<open>
  In a cube whose planes all have \<open>ny\<close> rows of \<open>nx\<close> entries, and whose mask, if
  there is one, has the same shape, the guarded reads are the plain reads.
\<close>

lemma reads_in_shape:
  assumes rows: "\<forall>plane \<in> set (cube_data c).
        length plane = ny \<and> (\<forall>row \<in> set plane. length row = nx)"
    and mask: "\<forall>m. cube_mask c = Some m \<longrightarrow> length m = length (cube_data c) \<and>
        (\<forall>plane \<in> set m. length plane = ny \<and> (\<forall>row \<in> set plane. length row = nx))"
    and k: "k < length (cube_data c)" and y: "y < ny" and x: "x < nx"
  shows "value_at c k y x = cube_data c ! k ! y ! x"
    and "unmasked c k y x \<longleftrightarrow> (\<forall>m. cube_mask c = Some m \<longrightarrow> m ! k ! y ! x)"
proof -
  have plane: "cube_data c ! k \<in> set (cube_data c)"
    using k by simp
  then have ly: "length (cube_data c ! k) = ny"
    using rows by blast
  then have "cube_data c ! k ! y \<in> set (cube_data c ! k)"
    using y by simp
  then have lx: "length (cube_data c ! k ! y) = nx"
    using rows plane by blast
  show "value_at c k y x = cube_data c ! k ! y ! x"
    using k y x ly lx by (simp add: value_at_def)
  show "unmasked c k y x \<longleftrightarrow> (\<forall>m. cube_mask c = Some m \<longrightarrow> m ! k ! y ! x)"
  proof (cases "cube_mask c")
    case None
    then show ?thesis by (simp add: unmasked_def)
  next
    case (Some m)
    then have lm: "length m = length (cube_data c)"
      and rm: "\<forall>plane \<in> set m. length plane = ny \<and> (\<forall>row \<in> set plane. length row = nx)"
      using mask by blast+
    have mplane: "m ! k \<in> set m"
      using k lm by simp
    then have mly: "length (m ! k) = ny"
      using rm by blast
    then have "m ! k ! y \<in> set (m ! k)"
      using y by simp
    then have mlx: "length (m ! k ! y) = nx"
      using rm mplane by blast
    show ?thesis
      using Some k y x lm mly mlx by (simp add: unmasked_def)
  qed
qed

lemma spatial_shape_of_rows:
  assumes "cube_data c \<noteq> []"
    and rows: "\<forall>plane \<in> set (cube_data c).
        length plane = ny \<and> (\<forall>row \<in> set plane. length row = nx)"
  shows "fst (spatial_shape c) = ny" and "0 < ny \<Longrightarrow> snd (spatial_shape c) = nx"
proof -
  obtain plane planes where d: "cube_data c = plane # planes"
    using assms(1) by (cases "cube_data c") simp_all
  have p: "length plane = ny" and r: "\<forall>row \<in> set plane. length row = nx"
    using rows d by simp_all
  show "fst (spatial_shape c) = ny"
    by (simp add: spatial_shape_def d p)
  show "snd (spatial_shape c) = nx" if pos: "0 < ny"
  proof -
    obtain row rest where pl: "plane = row # rest"
      using pos p by (cases plane) auto
    then have "length row = nx"
      using r by simp
    then show ?thesis
      by (simp add: spatial_shape_def d pl)
  qed
qed

text \<open>
  C5, for the reduction of the specification, stated on the arrays of the cube. For a
  cube with at least one plane, whose planes all have \<open>ny\<close> rows of \<open>nx\<close> entries,
  with a mask of the same shape if it has one and one velocity per plane: the map has
  \<open>ny\<close> rows of \<open>nx\<close> entries. For the pixel in row \<open>y\<close> and column \<open>x\<close>, let
  \<open>K\<close> be the channels whose velocity is at least the lower and less than the upper
  bound of the range and whose entry at the pixel is unmasked and not NaN: the pixel of
  the map is NaN when \<open>K\<close> is empty, and otherwise the sum of the entries of the channels
  in \<open>K\<close> times the channel width. When no channel has its velocity in the range, the map
  is NaN in all its \<open>ny\<close> rows of \<open>nx\<close> entries.
\<close>

theorem moment0_nan_excluded_sum:
  assumes planes: "cube_data c \<noteq> []"
    and rows: "\<forall>plane \<in> set (cube_data c).
        length plane = ny \<and> (\<forall>row \<in> set plane. length row = nx)"
    and mask: "\<forall>m. cube_mask c = Some m \<longrightarrow> length m = length (cube_data c) \<and>
        (\<forall>plane \<in> set m. length plane = ny \<and> (\<forall>row \<in> set plane. length row = nx))"
    and coords: "length (spectral_coords c) = length (cube_data c)"
  shows "length (moment0 c vr) = ny \<and>
    (\<forall>row \<in> set (moment0 c vr). length row = nx) \<and>
    (\<forall>y < ny. \<forall>x < nx.
       (let K = {k. k < length (cube_data c) \<and>
                    fst vr \<le> spectral_coords c ! k \<and> spectral_coords c ! k < snd vr \<and>
                    (\<forall>m. cube_mask c = Some m \<longrightarrow> m ! k ! y ! x) \<and>
                    cube_data c ! k ! y ! x \<noteq> NaN}
        in (K = {} \<longrightarrow> moment0 c vr ! y ! x = NaN) \<and>
           (K \<noteq> {} \<longrightarrow>
              (\<exists>f. (\<forall>k \<in> K. cube_data c ! k ! y ! x = Val (f k)) \<and>
                   moment0 c vr ! y ! x = Val ((\<Sum>k \<in> K. f k) * channel_width c))))) \<and>
    ((\<forall>k < length (cube_data c).
        \<not> (fst vr \<le> spectral_coords c ! k \<and> spectral_coords c ! k < snd vr)) \<longrightarrow>
       moment0 c vr = replicate ny (replicate nx NaN))"
proof (intro conjI allI impI ballI)
  note shape = spatial_shape_of_rows [OF planes rows]
  show "length (moment0 c vr) = ny"
    by (simp add: moment0_shape(1) shape(1))
  show "length row = nx" if "row \<in> set (moment0 c vr)" for row
  proof -
    have "0 < length (moment0 c vr)"
      using that by (cases "moment0 c vr") simp_all
    then have "0 < ny"
      by (simp add: moment0_shape(1) shape(1))
    then show ?thesis
      using moment0_shape(2) [OF that] shape(2) by simp
  qed
  show "moment0 c vr = replicate ny (replicate nx NaN)"
    if none: "\<forall>k < length (cube_data c).
        \<not> (fst vr \<le> spectral_coords c ! k \<and> spectral_coords c ! k < snd vr)"
  proof -
    have sel: "selected c vr = []"
      using none by (auto simp: selected_def filter_empty_conv)
    have px: "moment0_pixel c [] y x = NaN" for y x
      by (simp add: moment0_pixel_eq contributions_def)
    show ?thesis
    proof (cases "0 < ny")
      case True
      then show ?thesis
        by (simp add: moment0_def sel px shape map_replicate_const)
    next
      case False
      then show ?thesis
        by (simp add: moment0_def shape(1))
    qed
  qed
next
  fix y x assume y: "y < ny" and x: "x < nx"
  note shape = spatial_shape_of_rows [OF planes rows]
  have ny: "0 < ny"
    using y by simp
  let ?g = "\<lambda>k. case cube_data c ! k ! y ! x of NaN \<Rightarrow> 0 | Val r \<Rightarrow> r"
  let ?K = "{k. k < length (cube_data c) \<and>
                fst vr \<le> spectral_coords c ! k \<and> spectral_coords c ! k < snd vr \<and>
                (\<forall>m. cube_mask c = Some m \<longrightarrow> m ! k ! y ! x) \<and>
                cube_data c ! k ! y ! x \<noteq> NaN}"
  let ?ks = "filter (\<lambda>k. unmasked c k y x \<and> value_at c k y x \<noteq> NaN) (selected c vr)"
  have ks: "set ?ks = ?K"
  proof (intro set_eqI iffI)
    fix k assume "k \<in> set ?ks"
    then have k: "k < length (cube_data c)"
      and v: "fst vr \<le> spectral_coords c ! k \<and> spectral_coords c ! k < snd vr"
      and u: "unmasked c k y x" and d: "value_at c k y x \<noteq> NaN"
      by (simp_all add: selected_def)
    note r = reads_in_shape [OF rows mask k y x]
    show "k \<in> ?K"
      using k v u d r by simp
  next
    fix k assume "k \<in> ?K"
    then have k: "k < length (cube_data c)"
      and v: "fst vr \<le> spectral_coords c ! k \<and> spectral_coords c ! k < snd vr"
      and u: "\<forall>m. cube_mask c = Some m \<longrightarrow> m ! k ! y ! x"
      and d: "cube_data c ! k ! y ! x \<noteq> NaN"
      by simp_all
    note r = reads_in_shape [OF rows mask k y x]
    show "k \<in> set ?ks"
      using k v u d r coords by (simp add: selected_def)
  qed
  have dist: "distinct ?ks"
    by (simp add: selected_def)
  have vals: "map (\<lambda>k. case value_at c k y x of NaN \<Rightarrow> 0 | Val r \<Rightarrow> r) ?ks = map ?g ?ks"
  proof (rule map_cong [OF refl])
    fix k assume "k \<in> set ?ks"
    then have "k < length (cube_data c)"
      by (simp add: selected_def)
    then show "(case value_at c k y x of NaN \<Rightarrow> 0 | Val r \<Rightarrow> r) = ?g k"
      using reads_in_shape(1) [OF rows mask _ y x] by simp
  qed
  have contr: "contributions c (selected c vr) y x = map ?g ?ks"
    by (simp only: contributions_filter vals)
  have total: "sum_list (contributions c (selected c vr) y x) = (\<Sum>k \<in> ?K. ?g k)"
    using sum_list_distinct_conv_sum_set [OF dist, of ?g] by (simp only: contr ks)
  have empty: "contributions c (selected c vr) y x = [] \<longleftrightarrow> ?K = {}"
  proof -
    have "contributions c (selected c vr) y x = [] \<longleftrightarrow> set ?ks = {}"
      by (simp only: contr map_is_Nil_conv set_empty)
    then show ?thesis
      by (simp only: ks)
  qed
  have px: "moment0 c vr ! y ! x =
      (if ?K = {} then NaN else Val ((\<Sum>k \<in> ?K. ?g k) * channel_width c))"
    using y x by (simp only: moment0_nth shape ny moment0_pixel_eq empty total)
  have read: "\<forall>k \<in> ?K. cube_data c ! k ! y ! x = Val (?g k)"
  proof
    fix k assume "k \<in> ?K"
    then have "cube_data c ! k ! y ! x \<noteq> NaN"
      by simp
    then show "cube_data c ! k ! y ! x = Val (?g k)"
      by (cases "cube_data c ! k ! y ! x") simp_all
  qed
  have some: "\<exists>f. (\<forall>k \<in> ?K. cube_data c ! k ! y ! x = Val (f k)) \<and>
      moment0 c vr ! y ! x = Val ((\<Sum>k \<in> ?K. f k) * channel_width c)" if "?K \<noteq> {}"
    using that px read by (intro exI [of _ ?g]) simp
  show "let K = ?K
        in (K = {} \<longrightarrow> moment0 c vr ! y ! x = NaN) \<and>
           (K \<noteq> {} \<longrightarrow>
              (\<exists>f. (\<forall>k \<in> K. cube_data c ! k ! y ! x = Val (f k)) \<and>
                   moment0 c vr ! y ! x = Val ((\<Sum>k \<in> K. f k) * channel_width c)))"
    unfolding Let_def using px some by simp
qed

text \<open>
  The theorem on the small cube, of three planes of one row of three entries. Over the
  range from 0 to 15 the channels at 0 and 10 are selected: the first pixel is
  \<open>(1 + 4) * 10\<close>, the second, NaN in one of the two channels, is \<open>2 * 10\<close>, and
  the third, masked, is NaN. Over the range from 30 to 40 no channel is selected and
  every pixel is NaN.
\<close>

theorem moment0_nan_excluded_sum_witness:
  "cube_data small_cube \<noteq> [] \<and>
   list_all (\<lambda>plane. length plane = 1 \<and> list_all (\<lambda>row. length row = 3) plane)
     (cube_data small_cube) \<and>
   cube_mask small_cube \<noteq> None \<and>
   length (the (cube_mask small_cube)) = length (cube_data small_cube) \<and>
   list_all (\<lambda>plane. length plane = 1 \<and> list_all (\<lambda>row. length row = 3) plane)
     (the (cube_mask small_cube)) \<and>
   length (spectral_coords small_cube) = length (cube_data small_cube) \<and>
   length (moment0 small_cube (0, 15)) = 1 \<and>
   list_all (\<lambda>row. length row = 3) (moment0 small_cube (0, 15)) \<and>
   moment0 small_cube (0, 15) = [[Val 50, Val 20, NaN]] \<and>
   list_all (\<lambda>v. \<not> (30 \<le> v \<and> v < 40)) (spectral_coords small_cube) \<and>
   moment0 small_cube (30, 40) = replicate 1 (replicate 3 NaN)"
proof -
  have planes: "cube_data small_cube \<noteq> []"
    by (simp add: small_cube_def)
  have rows': "list_all (\<lambda>plane. length plane = 1 \<and> list_all (\<lambda>row. length row = 3) plane)
      (cube_data small_cube)"
    by (simp add: small_cube_def)
  then have rows: "\<forall>plane \<in> set (cube_data small_cube).
      length plane = 1 \<and> (\<forall>row \<in> set plane. length row = 3)"
    by (simp add: list_all_iff)
  have masked: "cube_mask small_cube \<noteq> None"
    by (simp add: small_cube_def)
  have mlen: "length (the (cube_mask small_cube)) = length (cube_data small_cube)"
    by (simp add: small_cube_def)
  have mrows': "list_all (\<lambda>plane. length plane = 1 \<and> list_all (\<lambda>row. length row = 3) plane)
      (the (cube_mask small_cube))"
    by (simp add: small_cube_def)
  then have mrows: "\<forall>plane \<in> set (the (cube_mask small_cube)).
      length plane = 1 \<and> (\<forall>row \<in> set plane. length row = 3)"
    by (simp add: list_all_iff)
  have mask: "\<forall>m. cube_mask small_cube = Some m \<longrightarrow>
      length m = length (cube_data small_cube) \<and>
      (\<forall>plane \<in> set m. length plane = 1 \<and> (\<forall>row \<in> set plane. length row = 3))"
  proof (intro allI impI)
    fix m assume "cube_mask small_cube = Some m"
    then have "the (cube_mask small_cube) = m"
      by simp
    then show "length m = length (cube_data small_cube) \<and>
      (\<forall>plane \<in> set m. length plane = 1 \<and> (\<forall>row \<in> set plane. length row = 3))"
      using mlen mrows by simp
  qed
  have coords: "length (spectral_coords small_cube) = length (cube_data small_cube)"
    by (simp add: small_cube_def)
  have none': "list_all (\<lambda>v. \<not> (30 \<le> v \<and> v < 40)) (spectral_coords small_cube)"
    by (simp add: small_cube_def)
  have none: "\<forall>k < length (cube_data small_cube).
      \<not> (fst (30, 40) \<le> spectral_coords small_cube ! k \<and>
         spectral_coords small_cube ! k < snd (30 :: real, 40 :: real))"
  proof (intro allI impI)
    fix k assume "k < length (cube_data small_cube)"
    then have "spectral_coords small_cube ! k \<in> set (spectral_coords small_cube)"
      using coords by simp
    then show "\<not> (fst (30, 40) \<le> spectral_coords small_cube ! k \<and>
         spectral_coords small_cube ! k < snd (30 :: real, 40 :: real))"
      using none' by (simp add: list_all_iff)
  qed
  have map1: "moment0 small_cube (0, 15) = [[Val 50, Val 20, NaN]]"
    by code_simp
  note inst = moment0_nan_excluded_sum [OF planes rows mask coords]
  have "length (moment0 small_cube (0, 15)) = 1"
    using inst [of "(0, 15)"] by blast
  moreover have "\<forall>row \<in> set (moment0 small_cube (0, 15)). length row = 3"
    using inst [of "(0, 15)"] by blast
  then have "list_all (\<lambda>row. length row = 3) (moment0 small_cube (0, 15))"
    by (simp add: list_all_iff)
  moreover have "moment0 small_cube (30, 40) = replicate 1 (replicate 3 NaN)"
    using inst [of "(30, 40)"] none by blast
  ultimately show ?thesis
    using planes rows' masked mlen mrows' coords map1 none' by blast
qed

end
